theory Spec2Isabelle
  imports Main
begin

section \<open>Data model\<close>

text \<open>
  The coordinator of cluster-x exists in three variants: the queue-driven one with the
  generator, the loop flag and the running-worker array (its functions keep the source's
  names), the earlier one whose \<open>queueManager\<close> always rotates the queue (suffix
  \<open>_v1\<close>), and the queue-less one configured through the constructor (suffix \<open>_v3\<close>).

  A job identifier is a JavaScript string; \<open>None\<close> stands for \<open>undefined\<close>, which
  \<open>Array.prototype.pop\<close> returns on an empty array.
\<close>

type_synonym job = "string option"

record config =
  workerLimit :: int
  env :: "string \<rightharpoonup> string"
  args :: "string list"
  silentMode :: bool
  loop :: bool

text \<open>The configuration document read by \<open>readYamlConfiguration\<close>.\<close>

record yaml_config =
  QUEUE :: "job list"
  ARGS :: "string list"
  LOOP :: bool
  ENV_VARIABLES :: "string \<rightharpoonup> string"
  SILENT_MODE :: bool
  WORKER_LIMIT :: int

text \<open>\<open>ClusterCommunicator\<close>: both fields are optional.\<close>

datatype action = check_queue | handle_error | unhandled_exception

record communicator =
  actions :: "action option"
  message :: "string option"

text \<open>
  Values that reach \<open>errorHandler\<close>. An object is given by its enumerable own entries
  (each value already rendered as in a template string); every value that is neither
  an object nor \<open>undefined\<close> is given by the result of its \<open>toString()\<close>.
\<close>

datatype jsval = JUndefined | JNull | JObject "(string \<times> string) list" | JPrimitive string

datatype jstype = T_object | T_undefined | T_other

datatype exn = TypeError string

text \<open>
  Console console. A line is the \<open>log\<close> helper that printed it and its text; a text built
  from a template with numbers keeps the template's arguments (process ids are left out).
\<close>

datatype level = Standard | Process | Warning | Info | Error | Console

datatype line_text =
    Literal string
  | Number nat
  | FullQueue int int
  | FinishedWork
  | BeingCreated nat
  | StartingJob nat
  | Crashed nat "int option" "string option"
  | DoneJob nat
  | QueueLengthInExit nat
  | MasterRunning
  | EnvInfo
  | LimitAboveCpus

type_synonym log_entry = "level \<times> line_text"

text \<open>
  The host process manager (Node's \<open>cluster\<close> module): every worker it forked, with the
  environment handed over at the fork and the lifecycle signal it emitted last. The host
  numbers its workers from 1, so the worker with id \<open>w\<close> is the \<open>w\<close>-th of the list.
\<close>

datatype phase = Created | Forked | Online | Exited

record worker =
  wenv :: "string \<rightharpoonup> string"
  phase :: phase

datatype event =
    EvFork nat
  | EvOnline nat
  | EvExit nat "int option" "string option"
  | EvMessage nat communicator

text \<open>
  The coordinator: the fields of \<open>WorkerCreator\<close>, whether the generator \<open>_gen\<close> has
  returned, the host's workers, the console, and the status passed to \<open>process.exit\<close>
  once it was called.
\<close>

record coordinator =
  runningServicesCount :: int
  configuration :: config
  queue :: "job list"
  runningService :: job
  runningWorkers :: "nat list"
  gen_finished :: bool
  workers :: "worker list"
  console :: "log_entry list"
  exit_code :: "int option"

section \<open>Operations\<close>

subsection \<open>Console and process\<close>

text \<open>Nothing is printed and nothing runs once \<open>process.exit\<close> was called.\<close>

definition emit :: "log_entry \<Rightarrow> coordinator \<Rightarrow> coordinator" where
  "emit l s = (if exit_code s = None then s\<lparr>console := console s @ [l]\<rparr> else s)"

definition process_exit :: "int \<Rightarrow> coordinator \<Rightarrow> coordinator" where
  "process_exit c s = (if exit_code s = None then s\<lparr>exit_code := Some c\<rparr> else s)"

text \<open>\<open>cluster.fork(env)\<close>: the new worker gets the next id and a copy of the environment.\<close>

definition cluster_fork :: "coordinator \<Rightarrow> coordinator" where
  "cluster_fork s =
     s\<lparr>workers := workers s @ [\<lparr>wenv = env (configuration s), phase = Created\<rparr>]\<rparr>"

subsection \<open>Job queue\<close>

text \<open>\<open>Array.prototype.pop\<close>: the last element and the rest; \<open>undefined\<close> on an empty array.\<close>

definition pop :: "job list \<Rightarrow> job \<times> job list" where
  "pop q = (if q = [] then (None, []) else (last q, butlast q))"

definition set_scraper :: "job \<Rightarrow> coordinator \<Rightarrow> coordinator" where
  "set_scraper service s =
     s\<lparr>configuration := (configuration s)\<lparr>env := (env (configuration s))(''SCRAPER'' := service)\<rparr>\<rparr>"

definition setService :: "coordinator \<Rightarrow> coordinator" where
  "setService s =
     (let (service, q) = pop (queue s);
          s1 = set_scraper service (s\<lparr>queue := q, runningService := service\<rparr>)
      in if loop (configuration s1) then s1\<lparr>queue := service # queue s1\<rparr> else s1)"

text \<open>
  \<open>this._gen.next()\<close> on the generator \<open>queueManager\<close>: the result's \<open>done\<close> and the state.
  A generator that has returned stays done.
\<close>

definition gen_next :: "coordinator \<Rightarrow> bool \<times> coordinator" where
  "gen_next s =
     (if gen_finished s then (True, s)
      else if length (queue s) > 0 then (False, setService s)
      else (True, s\<lparr>gen_finished := True\<rparr>))"

text \<open>The first variant's \<open>queueManager\<close>: pop, unshift, store.\<close>

definition queueManager_v1 :: "coordinator \<Rightarrow> coordinator" where
  "queueManager_v1 s =
     (let (service, q) = pop (queue s)
      in set_scraper service (s\<lparr>queue := service # q\<rparr>))"

text \<open>\<open>n\<close> successive calls of \<open>this._gen.next()\<close>, with the \<open>done\<close> each one reported.\<close>

fun nextJobs :: "nat \<Rightarrow> coordinator \<Rightarrow> bool list \<times> coordinator" where
  "nextJobs 0 s = ([], s)"
| "nextJobs (Suc n) s =
     (let (d, s1) = gen_next s; (ds, s2) = nextJobs n s1 in (d # ds, s2))"

subsection \<open>Process supervisor\<close>

definition full_queue :: "coordinator \<Rightarrow> coordinator" where
  "full_queue s =
     emit (Info, FullQueue (runningServicesCount s) (workerLimit (configuration s))) s"

definition count_up :: "coordinator \<Rightarrow> coordinator" where
  "count_up s = s\<lparr>runningServicesCount := runningServicesCount s + 1\<rparr>"

definition count_down :: "coordinator \<Rightarrow> coordinator" where
  "count_down s = s\<lparr>runningServicesCount := runningServicesCount s - 1\<rparr>"

definition createWorker :: "coordinator \<Rightarrow> coordinator" where
  "createWorker s =
     (if runningServicesCount s < workerLimit (configuration s) then
        (let s1 = emit (Console, Number (length (runningWorkers s))) s;
             (done, s2) = gen_next s1
         in if done then process_exit 0 (emit (Info, FinishedWork) s2)
            else count_up (cluster_fork s2))
      else full_queue s)"

definition createWorker_v1 :: "coordinator \<Rightarrow> coordinator" where
  "createWorker_v1 s =
     (if runningServicesCount s < workerLimit (configuration s)
      then count_up (cluster_fork (queueManager_v1 s))
      else full_queue s)"

definition createWorker_v3 :: "coordinator \<Rightarrow> coordinator" where
  "createWorker_v3 s =
     (if runningServicesCount s < workerLimit (configuration s)
      then count_up (cluster_fork s)
      else full_queue s)"

subsection \<open>Control messages\<close>

text \<open>
  The listener \<open>messageReader\<close> attaches to a worker. \<open>if (communicator.message)\<close> tests
  truthiness: an absent message and the empty string are both skipped.
\<close>

definition truthy :: "string option \<Rightarrow> bool" where
  "truthy m = (case m of None \<Rightarrow> False | Some t \<Rightarrow> t \<noteq> [])"

definition messageReader :: "communicator \<Rightarrow> coordinator \<Rightarrow> coordinator" where
  "messageReader c s =
     (let s1 = (if truthy (message c) then emit (Console, Literal (the (message c))) s else s)
      in case actions c of
           Some check_queue \<Rightarrow> s1
         | Some handle_error \<Rightarrow> s1
         | Some unhandled_exception \<Rightarrow> s1
         | None \<Rightarrow> s1)"

subsection \<open>Lifecycle event router\<close>

definition exit_report :: "nat \<Rightarrow> int option \<Rightarrow> string option \<Rightarrow> log_entry" where
  "exit_report w code signal =
     (if code \<noteq> Some 0 then (Warning, Crashed w code signal) else (Process, DoneJob w))"

text \<open>
  The fork handler prints its line when it resumes after awaiting \<open>createWorker\<close>; here
  that is the end of the handler's step.
\<close>

definition on_fork :: "nat \<Rightarrow> coordinator \<Rightarrow> coordinator" where
  "on_fork w s =
     (let s1 = s\<lparr>runningWorkers := runningWorkers s @ [w]\<rparr>
      in if length (queue s1) = 0 then s1
         else emit (Process, BeingCreated w) (createWorker s1))"

definition on_online :: "nat \<Rightarrow> coordinator \<Rightarrow> coordinator" where
  "on_online w s = emit (Process, StartingJob w) s"

text \<open>\<open>_.remove\<close> drops every element equal to the worker's id.\<close>

definition release :: "nat \<Rightarrow> coordinator \<Rightarrow> coordinator" where
  "release w s =
     count_down
       (emit (Standard, QueueLengthInExit (length (queue s)))
          (s\<lparr>runningWorkers := filter (\<lambda>element. element \<noteq> w) (runningWorkers s)\<rparr>))"

definition on_exit :: "nat \<Rightarrow> int option \<Rightarrow> string option \<Rightarrow> coordinator \<Rightarrow> coordinator" where
  "on_exit w code signal s = createWorker (release w (emit (exit_report w code signal) s))"

definition on_fork_v1 :: "nat \<Rightarrow> coordinator \<Rightarrow> coordinator" where
  "on_fork_v1 w s = emit (Process, BeingCreated w) (createWorker_v1 s)"

definition on_exit_v1 :: "nat \<Rightarrow> int option \<Rightarrow> string option \<Rightarrow> coordinator \<Rightarrow> coordinator" where
  "on_exit_v1 w code signal s = createWorker_v1 (count_down (emit (exit_report w code signal) s))"

definition on_fork_v3 :: "nat \<Rightarrow> coordinator \<Rightarrow> coordinator" where
  "on_fork_v3 w s = emit (Process, BeingCreated w) (createWorker_v3 s)"

definition on_exit_v3 :: "nat \<Rightarrow> int option \<Rightarrow> string option \<Rightarrow> coordinator \<Rightarrow> coordinator" where
  "on_exit_v3 w code signal s = createWorker_v3 (count_down (emit (exit_report w code signal) s))"

text \<open>
  The host records the signal in the worker's lifecycle, then the registered handler
  runs to completion; a coordinator that has exited handles nothing.
\<close>

definition set_phase :: "nat \<Rightarrow> phase \<Rightarrow> coordinator \<Rightarrow> coordinator" where
  "set_phase w p s =
     (if 0 < w \<and> w \<le> length (workers s)
      then s\<lparr>workers := (workers s)[w - 1 := (workers s ! (w - 1))\<lparr>phase := p\<rparr>]\<rparr>
      else s)"

fun handle :: "event \<Rightarrow> coordinator \<Rightarrow> coordinator" where
  "handle (EvFork w) s = on_fork w (set_phase w Forked s)"
| "handle (EvOnline w) s = on_online w (set_phase w Online s)"
| "handle (EvExit w code signal) s = on_exit w code signal (set_phase w Exited s)"
| "handle (EvMessage w c) s = messageReader c s"

fun handle_v1 :: "event \<Rightarrow> coordinator \<Rightarrow> coordinator" where
  "handle_v1 (EvFork w) s = on_fork_v1 w (set_phase w Forked s)"
| "handle_v1 (EvOnline w) s = on_online w (set_phase w Online s)"
| "handle_v1 (EvExit w code signal) s = on_exit_v1 w code signal (set_phase w Exited s)"
| "handle_v1 (EvMessage w c) s = s"

fun handle_v3 :: "event \<Rightarrow> coordinator \<Rightarrow> coordinator" where
  "handle_v3 (EvFork w) s = on_fork_v3 w (set_phase w Forked s)"
| "handle_v3 (EvOnline w) s = on_online w (set_phase w Online s)"
| "handle_v3 (EvExit w code signal) s = on_exit_v3 w code signal (set_phase w Exited s)"
| "handle_v3 (EvMessage w c) s = messageReader c s"

definition deliver :: "event \<Rightarrow> coordinator \<Rightarrow> coordinator" where
  "deliver e s = (if exit_code s = None then handle e s else s)"

definition deliver_v1 :: "event \<Rightarrow> coordinator \<Rightarrow> coordinator" where
  "deliver_v1 e s = (if exit_code s = None then handle_v1 e s else s)"

definition deliver_v3 :: "event \<Rightarrow> coordinator \<Rightarrow> coordinator" where
  "deliver_v3 e s = (if exit_code s = None then handle_v3 e s else s)"

text \<open>The state after a sequence of signals, each handled by \<open>d\<close>.\<close>

definition run :: "(event \<Rightarrow> coordinator \<Rightarrow> coordinator) \<Rightarrow> event list \<Rightarrow> coordinator \<Rightarrow> coordinator" where
  "run d evs s = foldl (\<lambda>s e. d e s) s evs"

subsection \<open>Error classifier\<close>

definition typeof :: "jsval \<Rightarrow> jstype" where
  "typeof v = (case v of JUndefined \<Rightarrow> T_undefined | JNull \<Rightarrow> T_object
                 | JObject kvs \<Rightarrow> T_object | JPrimitive t \<Rightarrow> T_other)"

definition toString :: "jsval \<Rightarrow> string" where
  "toString v = (case v of JPrimitive t \<Rightarrow> t | _ \<Rightarrow> [])"

text \<open>
  The lines \<open>errorHandler\<close> logs, or the exception it throws: in the \<open>'object'\<close> branch
  \<open>Object.entries\<close> throws on \<open>null\<close> before anything is logged. \<open>toString\<close> is only
  called in the default branch, on a primitive.
\<close>

definition errorHandler :: "jsval \<Rightarrow> exn + log_entry list" where
  "errorHandler error =
     (case typeof error of
        T_object \<Rightarrow>
          (case error of
             JObject kvs \<Rightarrow> Inr (map (\<lambda>(key, val). (Error, Literal (key @ '': '' @ val))) kvs)
           | _ \<Rightarrow> Inl (TypeError ''Cannot convert undefined or null to object''))
      | T_undefined \<Rightarrow> Inr [(Error, Literal ''Catch undefined error.'')]
      | T_other \<Rightarrow> Inr [(Error, Literal (''Worker failed with reason: '' @ toString error))])"

subsection \<open>Start-up\<close>

text \<open>
  The constructor. \<open>_configuration\<close> starts as \<open>{}\<close>: its fields are unassigned until
  \<open>setConfig\<close> stores them, and nothing reads them before; the record holds
  placeholders until then.
\<close>

definition constructor :: coordinator where
  "constructor =
     \<lparr>runningServicesCount = 0,
      configuration = \<lparr>workerLimit = 0, env = Map.empty, args = [], silentMode = False,
                       loop = False\<rparr>,
      queue = [], runningService = None, runningWorkers = [], gen_finished = False,
      workers = [], console = [], exit_code = None\<rparr>"

text \<open>
  \<open>setConfig\<close>: the argument is what \<open>readYamlConfiguration\<close> returned, \<open>None\<close> when
  reading or parsing the file threw.
\<close>

definition setConfig :: "yaml_config option \<Rightarrow> coordinator \<Rightarrow> coordinator" where
  "setConfig file s =
     (case file of
        Some config \<Rightarrow>
          s\<lparr>queue := QUEUE config,
            configuration := \<lparr>workerLimit = WORKER_LIMIT config, env = ENV_VARIABLES config,
                               args = ARGS config, silentMode = SILENT_MODE config,
                               loop = LOOP config\<rparr>\<rparr>
      | None \<Rightarrow> process_exit 0 (emit (Error, Literal ''Cannot load initial config.'') s))"

text \<open>The first variant has no \<open>loop\<close> field and does not read \<open>LOOP\<close>.\<close>

definition setConfig_v1 :: "yaml_config option \<Rightarrow> coordinator \<Rightarrow> coordinator" where
  "setConfig_v1 file s =
     (case file of
        Some config \<Rightarrow>
          s\<lparr>queue := QUEUE config,
            configuration := \<lparr>workerLimit = WORKER_LIMIT config, env = ENV_VARIABLES config,
                               args = ARGS config, silentMode = SILENT_MODE config,
                               loop = loop (configuration s)\<rparr>\<rparr>
      | None \<Rightarrow> process_exit 0 (emit (Error, Literal ''Cannot load initial config.'') s))"

text \<open>
  \<open>createMasterProcess\<close>: \<open>beforeStart\<close> is the value the pre-start hook throws (or
  rejects with), \<open>None\<close> when it completes. The result is the value thrown out of
  the method, if any, and the state.
\<close>

definition createMasterProcess ::
  "yaml_config option \<Rightarrow> jsval option \<Rightarrow> coordinator \<Rightarrow> jsval option \<times> coordinator" where
  "createMasterProcess file beforeStart s =
     (let s1 = setConfig file s
      in if exit_code s1 \<noteq> None then (None, s1)
         else let s2 = s1\<lparr>gen_finished := False\<rparr>
              in case beforeStart of
                   Some error \<Rightarrow> (Some error, s2)
                 | None \<Rightarrow>
                     (None, createWorker (emit (Info, EnvInfo) (emit (Info, MasterRunning) s2))))"

definition createMasterProcess_v1 ::
  "yaml_config option \<Rightarrow> jsval option \<Rightarrow> coordinator \<Rightarrow> jsval option \<times> coordinator" where
  "createMasterProcess_v1 file beforeStart s =
     (let s1 = setConfig_v1 file s
      in if exit_code s1 \<noteq> None then (None, s1)
         else case beforeStart of
                Some error \<Rightarrow> (Some error, s1)
              | None \<Rightarrow>
                  (None, createWorker_v1 (emit (Info, EnvInfo) (emit (Info, MasterRunning) s1))))"

text \<open>
  \<open>startJob\<close>, in a worker process: \<open>main\<close> is the value the job body throws, if any;
  \<open>worker.kill()\<close> in a worker ends its process with status 0.
\<close>

definition startJob :: "jsval option \<Rightarrow> coordinator \<Rightarrow> jsval option \<times> coordinator" where
  "startJob main s = (case main of Some error \<Rightarrow> (Some error, s) | None \<Rightarrow> (None, process_exit 0 s))"

text \<open>
  The \<open>try\<close>/\<open>catch\<close> of \<open>start\<close> around a body's outcome. The first component of the
  result is the exception that leaves \<open>start\<close> itself, when \<open>errorHandler\<close> throws
  inside the \<open>catch\<close> block and \<open>process.exit(1)\<close> is not reached.
\<close>

definition catch_all :: "jsval option \<times> coordinator \<Rightarrow> exn option \<times> coordinator" where
  "catch_all r =
     (case r of
        (None, s) \<Rightarrow> (None, s)
      | (Some error, s) \<Rightarrow>
          (case errorHandler error of
             Inl x \<Rightarrow> (Some x, s)
           | Inr ls \<Rightarrow> (None, process_exit 1 (foldl (\<lambda>s l. emit l s) s ls))))"

definition start ::
  "bool \<Rightarrow> yaml_config option \<Rightarrow> jsval option \<Rightarrow> jsval option \<Rightarrow> exn option \<times> coordinator" where
  "start isMaster file beforeStart main =
     catch_all (if isMaster then createMasterProcess file beforeStart constructor
                else startJob main constructor)"

definition start_v1 ::
  "bool \<Rightarrow> yaml_config option \<Rightarrow> jsval option \<Rightarrow> jsval option \<Rightarrow> exn option \<times> coordinator" where
  "start_v1 isMaster file beforeStart main =
     catch_all (if isMaster then createMasterProcess_v1 file beforeStart constructor
                else startJob main constructor)"

text \<open>
  The queue-less variant is configured through its constructor; \<open>cpus\<close> is
  \<open>os.cpus().length\<close>. With every field of the configuration object present,
  \<open>setDefaultConfiguration\<close> changes the worker limit only.
\<close>

text \<open>\<open>cpusChecker\<close>: the warning it logs, if any, and the limit it returns.\<close>

definition cpusChecker :: "nat \<Rightarrow> config \<Rightarrow> log_entry list \<times> int" where
  "cpusChecker cpus config =
     (if \<not> (workerLimit config > int cpus) then ([], workerLimit config)
      else ([(Warning, LimitAboveCpus)], int cpus))"

definition setDefaultConfiguration :: "nat \<Rightarrow> coordinator \<Rightarrow> coordinator" where
  "setDefaultConfiguration cpus s =
     (let (warnings, limit) = cpusChecker cpus (configuration s);
          s1 = foldl (\<lambda>s l. emit l s) s warnings
      in s1\<lparr>configuration := (configuration s1)\<lparr>workerLimit := limit\<rparr>\<rparr>)"

definition constructor_v3 :: "nat \<Rightarrow> config \<Rightarrow> coordinator" where
  "constructor_v3 cpus config =
     setDefaultConfiguration cpus (constructor\<lparr>configuration := config\<rparr>)"

definition createMasterProcess_v3 :: "jsval option \<Rightarrow> coordinator \<Rightarrow> jsval option \<times> coordinator" where
  "createMasterProcess_v3 beforeStart s =
     (case beforeStart of
        Some error \<Rightarrow> (Some error, s)
      | None \<Rightarrow> (None, createWorker_v3 (emit (Info, EnvInfo) (emit (Info, MasterRunning) s))))"

definition start_v3 ::
  "bool \<Rightarrow> nat \<Rightarrow> config \<Rightarrow> jsval option \<Rightarrow> jsval option \<Rightarrow> exn option \<times> coordinator" where
  "start_v3 isMaster cpus config beforeStart main =
     catch_all (if isMaster then createMasterProcess_v3 beforeStart (constructor_v3 cpus config)
                else startJob main (constructor_v3 cpus config))"


subsection \<open>The host's delivery of lifecycle signals\<close>

text \<open>
  For one worker the host emits fork, online and exit in that order, each at most once
  (a worker may exit without coming online); a message comes from a worker that is
  online. Nothing is delivered to a coordinator that has exited.
\<close>

definition phase_of :: "nat \<Rightarrow> coordinator \<Rightarrow> phase option" where
  "phase_of w s =
     (if 0 < w \<and> w \<le> length (workers s) then Some (phase (workers s ! (w - 1))) else None)"

fun enabled :: "coordinator \<Rightarrow> event \<Rightarrow> bool" where
  "enabled s (EvFork w) = (exit_code s = None \<and> phase_of w s = Some Created)"
| "enabled s (EvOnline w) = (exit_code s = None \<and> phase_of w s = Some Forked)"
| "enabled s (EvExit w code signal) =
     (exit_code s = None \<and> (phase_of w s = Some Forked \<or> phase_of w s = Some Online))"
| "enabled s (EvMessage w c) = (exit_code s = None \<and> phase_of w s = Some Online)"

fun exec :: "event list \<Rightarrow> coordinator \<Rightarrow> coordinator option" where
  "exec [] s = Some s"
| "exec (e # es) s = (if enabled s e then exec es (deliver e s) else None)"

fun lifecycle :: "event \<Rightarrow> bool" where
  "lifecycle (EvMessage w c) = False"
| "lifecycle e = True"

text \<open>
  What is left to happen: the signals each worker has still to emit, and for each queued
  job the three signals of the worker it will get plus its dequeue.
\<close>

fun remaining :: "phase \<Rightarrow> nat" where
  "remaining Created = 3"
| "remaining Forked = 2"
| "remaining Online = 1"
| "remaining Exited = 0"

definition pending :: "coordinator \<Rightarrow> nat" where
  "pending s = 4 * length (queue s) + sum_list (map (\<lambda>x. remaining (phase x)) (workers s))"

section \<open>Invariants and sample inputs\<close>

text \<open>The bound on the running count, with the limit it is measured against.\<close>

definition bounded :: "int \<Rightarrow> coordinator \<Rightarrow> bool" where
  "bounded n s \<longleftrightarrow>
     workerLimit (configuration s) = n \<and> runningServicesCount s \<le> workerLimit (configuration s)"

text \<open>
  What holds of the queue-driven coordinator while it drains a queue of \<open>N\<close> jobs
  without \<open>loop\<close>: every job is either still queued or was handed to a worker; the
  generator returns only as the process exits; the exit is with status 0 on an empty
  queue; and until then some worker has signals to emit.
\<close>

definition draining :: "nat \<Rightarrow> coordinator \<Rightarrow> bool" where
  "draining N s \<longleftrightarrow>
     \<not> loop (configuration s)
     \<and> runningServicesCount s \<le> workerLimit (configuration s)
     \<and> length (workers s) + length (queue s) = N
     \<and> (gen_finished s \<longrightarrow> exit_code s \<noteq> None)
     \<and> (exit_code s \<noteq> None \<longrightarrow> exit_code s = Some 0 \<and> queue s = [])
     \<and> (exit_code s = None \<longrightarrow> (\<exists>x \<in> set (workers s). phase x \<noteq> Exited))"

definition signals_left :: "coordinator \<Rightarrow> nat" where
  "signals_left s = sum_list (map (\<lambda>x. remaining (phase x)) (workers s))"

text \<open>
  The scenario of the specification (limit 2, three jobs, no loop) with one order in
  which the host may deliver its signals; the same document without jobs; and the
  configuration object of \<open>examples/example.ts\<close>.
\<close>

definition scenario :: yaml_config where
  "scenario =
     \<lparr>QUEUE = [Some ''j1'', Some ''j2'', Some ''j3''], ARGS = [], LOOP = False,
      ENV_VARIABLES = Map.empty, SILENT_MODE = False, WORKER_LIMIT = 2\<rparr>"

definition scenario_signals :: "event list" where
  "scenario_signals =
     [EvFork 1, EvFork 2, EvOnline 1, EvExit 1 (Some 0) None, EvFork 3,
      EvExit 2 (Some 0) None]"

definition no_jobs :: yaml_config where
  "no_jobs = scenario\<lparr>QUEUE := []\<rparr>"

definition example_config :: config where
  "example_config =
     \<lparr>workerLimit = 1, env = [''Testing'' \<mapsto> ''yeah-worked''], args = [[]],
      silentMode = False, loop = False\<rparr>"

section \<open>Properties of the job queue\<close>

lemma pop_nonempty: "q \<noteq> [] \<Longrightarrow> pop q = (last q, butlast q)"
  by (simp add: pop_def)

lemma setService_queue:
  "queue s \<noteq> [] \<Longrightarrow>
   queue (setService s) =
     (if loop (configuration s) then last (queue s) # butlast (queue s) else butlast (queue s))"
  by (simp add: setService_def pop_nonempty set_scraper_def Let_def)

lemma setService_service:
  "queue s \<noteq> [] \<Longrightarrow> runningService (setService s) = last (queue s)"
  by (simp add: setService_def pop_nonempty set_scraper_def Let_def)

lemma setService_env:
  "queue s \<noteq> [] \<Longrightarrow>
   env (configuration (setService s)) = (env (configuration s))(''SCRAPER'' := last (queue s))"
  by (simp add: setService_def pop_nonempty set_scraper_def Let_def)

lemma setService_frame:
  "loop (configuration (setService s)) = loop (configuration s)"
  "workerLimit (configuration (setService s)) = workerLimit (configuration s)"
  "gen_finished (setService s) = gen_finished s"
  "runningServicesCount (setService s) = runningServicesCount s"
  "runningWorkers (setService s) = runningWorkers s"
  "workers (setService s) = workers s"
  "console (setService s) = console s"
  "exit_code (setService s) = exit_code s"
  by (simp_all add: setService_def set_scraper_def Let_def split: prod.splits)

lemma gen_next_dequeue:
  "queue s \<noteq> [] \<Longrightarrow> \<not> gen_finished s \<Longrightarrow> gen_next s = (False, setService s)"
  by (simp add: gen_next_def)

text \<open>
  C3. A dequeue step is \<open>this._gen.next()\<close> on a queue that has a job (the generator
  calls \<open>setService\<close> only then), or the first variant's \<open>queueManager\<close>. It reports
  not done, takes the last identifier off the queue, puts it back in front exactly when
  \<open>loop\<close> is set (the first variant, which has no flag, always does), and stores it as
  the running service and under \<open>SCRAPER\<close> in the environment of the configuration.
\<close>

theorem dequeue_step:
  assumes "queue s \<noteq> []" and "\<not> gen_finished s"
  shows "fst (gen_next s) = False
       \<and> queue (snd (gen_next s)) =
           (if loop (configuration s) then last (queue s) # butlast (queue s)
            else butlast (queue s))
       \<and> runningService (snd (gen_next s)) = last (queue s)
       \<and> env (configuration (snd (gen_next s))) ''SCRAPER'' = last (queue s)
       \<and> queue (queueManager_v1 s) = last (queue s) # butlast (queue s)
       \<and> env (configuration (queueManager_v1 s)) ''SCRAPER'' = last (queue s)"
  using assms
  by (simp add: gen_next_dequeue setService_queue setService_service setService_env
      queueManager_v1_def pop_nonempty set_scraper_def)

lemma rotate_length: "q \<noteq> [] \<Longrightarrow> length (last q # butlast q) = length q"
  by simp

lemma rotate_set: "q \<noteq> [] \<Longrightarrow> set (last q # butlast q) = set q"
  by (metis append_butlast_last_id list.simps(15) rotate1.simps(2) set_rotate1)

text \<open>
  C4. With \<open>loop\<close> set and a queue that is not empty, any number of calls of
  \<open>this._gen.next()\<close> on a fresh generator all report not done, and leave the queue with
  its length and its set of identifiers; the generator never returns.
\<close>

theorem nextJobs_loop:
  "loop (configuration s) \<Longrightarrow> queue s \<noteq> [] \<Longrightarrow> \<not> gen_finished s \<Longrightarrow>
   fst (nextJobs n s) = replicate n False
   \<and> length (queue (snd (nextJobs n s))) = length (queue s)
   \<and> set (queue (snd (nextJobs n s))) = set (queue s)
   \<and> \<not> gen_finished (snd (nextJobs n s))"
proof (induction n arbitrary: s)
  case 0
  then show ?case by simp
next
  case (Suc n)
  let ?s1 = "setService s"
  have q1: "queue ?s1 = last (queue s) # butlast (queue s)"
    using Suc.prems by (simp add: setService_queue)
  have "loop (configuration ?s1)" "queue ?s1 \<noteq> []" "\<not> gen_finished ?s1"
    using Suc.prems q1 by (simp_all add: setService_frame)
  from Suc.IH[OF this]
  have ih: "fst (nextJobs n ?s1) = replicate n False"
    "length (queue (snd (nextJobs n ?s1))) = length (queue ?s1)"
    "set (queue (snd (nextJobs n ?s1))) = set (queue ?s1)"
    "\<not> gen_finished (snd (nextJobs n ?s1))"
    by simp_all
  have step: "nextJobs (Suc n) s = (False # fst (nextJobs n ?s1), snd (nextJobs n ?s1))"
    using Suc.prems by (simp add: gen_next_dequeue split_beta)
  have "length (queue ?s1) = length (queue s)" "set (queue ?s1) = set (queue s)"
    unfolding q1 by (rule rotate_length[OF Suc.prems(2)], rule rotate_set[OF Suc.prems(2)])
  with ih step show ?case by simp
qed

theorem dequeue_step_witness:
  "queue (snd (gen_next (constructor\<lparr>queue := [Some ''j1'', Some ''j2'']\<rparr>))) = [Some ''j1'']
   \<and> env (configuration (snd (gen_next (constructor\<lparr>queue := [Some ''j1'', Some ''j2'']\<rparr>))))
        ''SCRAPER'' = Some ''j2''
   \<and> queue (queueManager_v1 (constructor\<lparr>queue := [Some ''j1'', Some ''j2'']\<rparr>))
       = [Some ''j2'', Some ''j1'']"
  using dequeue_step [of "constructor\<lparr>queue := [Some ''j1'', Some ''j2'']\<rparr>"]
  by (simp add: constructor_def)

theorem nextJobs_loop_witness:
  "fst (nextJobs 5 (constructor\<lparr>queue := [Some ''j1'', Some ''j2''],
          configuration := (configuration constructor)\<lparr>loop := True\<rparr>\<rparr>)) = replicate 5 False
   \<and> set (queue (snd (nextJobs 5 (constructor\<lparr>queue := [Some ''j1'', Some ''j2''],
          configuration := (configuration constructor)\<lparr>loop := True\<rparr>\<rparr>))))
       = {Some ''j1'', Some ''j2''}"
  using nextJobs_loop [of "constructor\<lparr>queue := [Some ''j1'', Some ''j2''],
          configuration := (configuration constructor)\<lparr>loop := True\<rparr>\<rparr>" 5]
  by (simp add: constructor_def insert_commute)

section \<open>Frame lemmas\<close>

lemma emit_frame [simp]:
  "runningServicesCount (emit l s) = runningServicesCount s"
  "configuration (emit l s) = configuration s"
  "queue (emit l s) = queue s"
  "runningService (emit l s) = runningService s"
  "runningWorkers (emit l s) = runningWorkers s"
  "gen_finished (emit l s) = gen_finished s"
  "workers (emit l s) = workers s"
  "exit_code (emit l s) = exit_code s"
  by (simp_all add: emit_def)

lemma process_exit_frame [simp]:
  "runningServicesCount (process_exit c s) = runningServicesCount s"
  "configuration (process_exit c s) = configuration s"
  "queue (process_exit c s) = queue s"
  "runningService (process_exit c s) = runningService s"
  "runningWorkers (process_exit c s) = runningWorkers s"
  "gen_finished (process_exit c s) = gen_finished s"
  "workers (process_exit c s) = workers s"
  "console (process_exit c s) = console s"
  by (simp_all add: process_exit_def)

lemma process_exit_code [simp]:
  "exit_code (process_exit c s) = (if exit_code s = None then Some c else exit_code s)"
  by (simp add: process_exit_def)

lemma cluster_fork_frame [simp]:
  "runningServicesCount (cluster_fork s) = runningServicesCount s"
  "configuration (cluster_fork s) = configuration s"
  "queue (cluster_fork s) = queue s"
  "runningService (cluster_fork s) = runningService s"
  "runningWorkers (cluster_fork s) = runningWorkers s"
  "gen_finished (cluster_fork s) = gen_finished s"
  "console (cluster_fork s) = console s"
  "exit_code (cluster_fork s) = exit_code s"
  "workers (cluster_fork s) = workers s @ [\<lparr>wenv = env (configuration s), phase = Created\<rparr>]"
  by (simp_all add: cluster_fork_def)

lemma count_up_frame [simp]:
  "runningServicesCount (count_up s) = runningServicesCount s + 1"
  "configuration (count_up s) = configuration s"
  "queue (count_up s) = queue s"
  "runningService (count_up s) = runningService s"
  "runningWorkers (count_up s) = runningWorkers s"
  "gen_finished (count_up s) = gen_finished s"
  "workers (count_up s) = workers s"
  "console (count_up s) = console s"
  "exit_code (count_up s) = exit_code s"
  by (simp_all add: count_up_def)

lemma count_down_frame [simp]:
  "runningServicesCount (count_down s) = runningServicesCount s - 1"
  "configuration (count_down s) = configuration s"
  "queue (count_down s) = queue s"
  "runningService (count_down s) = runningService s"
  "runningWorkers (count_down s) = runningWorkers s"
  "gen_finished (count_down s) = gen_finished s"
  "workers (count_down s) = workers s"
  "console (count_down s) = console s"
  "exit_code (count_down s) = exit_code s"
  by (simp_all add: count_down_def)

lemma set_phase_frame [simp]:
  "runningServicesCount (set_phase w p s) = runningServicesCount s"
  "configuration (set_phase w p s) = configuration s"
  "queue (set_phase w p s) = queue s"
  "runningService (set_phase w p s) = runningService s"
  "runningWorkers (set_phase w p s) = runningWorkers s"
  "gen_finished (set_phase w p s) = gen_finished s"
  "console (set_phase w p s) = console s"
  "exit_code (set_phase w p s) = exit_code s"
  "length (workers (set_phase w p s)) = length (workers s)"
  by (simp_all add: set_phase_def)

lemma full_queue_frame [simp]:
  "runningServicesCount (full_queue s) = runningServicesCount s"
  "configuration (full_queue s) = configuration s"
  "queue (full_queue s) = queue s"
  "runningService (full_queue s) = runningService s"
  "runningWorkers (full_queue s) = runningWorkers s"
  "gen_finished (full_queue s) = gen_finished s"
  "workers (full_queue s) = workers s"
  "exit_code (full_queue s) = exit_code s"
  by (simp_all add: full_queue_def)

lemma setService_nonempty:
  "queue s \<noteq> [] \<Longrightarrow>
   setService s =
     s\<lparr>queue := (if loop (configuration s) then last (queue s) # butlast (queue s)
                 else butlast (queue s)),
       runningService := last (queue s),
       configuration := (configuration s)\<lparr>env := (env (configuration s))(''SCRAPER'' := last (queue s))\<rparr>\<rparr>"
  by (simp add: setService_def pop_nonempty set_scraper_def Let_def)

text \<open>The three ways through \<open>createWorker\<close>.\<close>

lemma createWorker_full:
  "\<not> runningServicesCount s < workerLimit (configuration s) \<Longrightarrow> createWorker s = full_queue s"
  by (simp add: createWorker_def)

lemma createWorker_drained:
  "runningServicesCount s < workerLimit (configuration s) \<Longrightarrow> gen_finished s \<or> queue s = [] \<Longrightarrow>
   createWorker s =
     process_exit 0 (emit (Info, FinishedWork)
       ((emit (Console, Number (length (runningWorkers s))) s)\<lparr>gen_finished := True\<rparr>))"
  by (auto simp add: createWorker_def gen_next_def Let_def emit_def)

lemma createWorker_spawn:
  "runningServicesCount s < workerLimit (configuration s) \<Longrightarrow> \<not> gen_finished s \<Longrightarrow> queue s \<noteq> [] \<Longrightarrow>
   createWorker s =
     count_up (cluster_fork (setService (emit (Console, Number (length (runningWorkers s))) s)))"
  by (simp add: createWorker_def gen_next_def Let_def)

lemma createWorker_cases:
  obtains (full) "\<not> runningServicesCount s < workerLimit (configuration s)"
                 "createWorker s = full_queue s"
  | (drained) "runningServicesCount s < workerLimit (configuration s)" "gen_finished s \<or> queue s = []"
      "createWorker s =
         process_exit 0 (emit (Info, FinishedWork)
           ((emit (Console, Number (length (runningWorkers s))) s)\<lparr>gen_finished := True\<rparr>))"
  | (spawn) "runningServicesCount s < workerLimit (configuration s)" "\<not> gen_finished s" "queue s \<noteq> []"
      "createWorker s =
         count_up (cluster_fork (setService (emit (Console, Number (length (runningWorkers s))) s)))"
  using createWorker_full createWorker_drained createWorker_spawn by blast

lemma createWorker_limit [simp]:
  "workerLimit (configuration (createWorker s)) = workerLimit (configuration s)"
  by (cases s rule: createWorker_cases) (simp_all add: setService_frame)

lemma createWorker_loop [simp]:
  "loop (configuration (createWorker s)) = loop (configuration s)"
  by (cases s rule: createWorker_cases) (simp_all add: setService_frame)

lemma createWorker_bound:
  "runningServicesCount s \<le> workerLimit (configuration s) \<Longrightarrow>
   runningServicesCount (createWorker s) \<le> workerLimit (configuration s)"
  by (cases s rule: createWorker_cases) (simp_all add: setService_frame)

lemma createWorker_forks_below_limit:
  "workers (createWorker s) \<noteq> workers s \<Longrightarrow> runningServicesCount s < workerLimit (configuration s)"
  by (cases s rule: createWorker_cases) simp_all

section \<open>The concurrency bound\<close>

lemma set_scraper_frame [simp]:
  "runningServicesCount (set_scraper j s) = runningServicesCount s"
  "workerLimit (configuration (set_scraper j s)) = workerLimit (configuration s)"
  "loop (configuration (set_scraper j s)) = loop (configuration s)"
  "queue (set_scraper j s) = queue s"
  "workers (set_scraper j s) = workers s"
  "exit_code (set_scraper j s) = exit_code s"
  by (simp_all add: set_scraper_def)

lemma queueManager_v1_frame [simp]:
  "runningServicesCount (queueManager_v1 s) = runningServicesCount s"
  "workerLimit (configuration (queueManager_v1 s)) = workerLimit (configuration s)"
  "exit_code (queueManager_v1 s) = exit_code s"
  by (simp_all add: queueManager_v1_def split_beta)

lemma createWorker_v1_limit [simp]:
  "workerLimit (configuration (createWorker_v1 s)) = workerLimit (configuration s)"
  by (simp add: createWorker_v1_def)

lemma createWorker_v1_bound:
  "runningServicesCount s \<le> workerLimit (configuration s) \<Longrightarrow>
   runningServicesCount (createWorker_v1 s) \<le> workerLimit (configuration s)"
  by (simp add: createWorker_v1_def)

lemma createWorker_v3_limit [simp]:
  "workerLimit (configuration (createWorker_v3 s)) = workerLimit (configuration s)"
  by (simp add: createWorker_v3_def)

lemma createWorker_v3_bound:
  "runningServicesCount s \<le> workerLimit (configuration s) \<Longrightarrow>
   runningServicesCount (createWorker_v3 s) \<le> workerLimit (configuration s)"
  by (simp add: createWorker_v3_def)

lemma messageReader_console:
  "messageReader c s =
     (if truthy (message c) then emit (Console, Literal (the (message c))) s else s)"
  by (simp add: messageReader_def Let_def split: option.splits action.splits)

lemma emit_bounded [simp]: "bounded n (emit l s) = bounded n s"
  by (simp add: bounded_def)

lemma createWorker_bounded: "bounded n s \<Longrightarrow> bounded n (createWorker s)"
  using createWorker_bound[of s] by (simp add: bounded_def)

lemma createWorker_v1_bounded: "bounded n s \<Longrightarrow> bounded n (createWorker_v1 s)"
  using createWorker_v1_bound[of s] by (simp add: bounded_def)

lemma createWorker_v3_bounded: "bounded n s \<Longrightarrow> bounded n (createWorker_v3 s)"
  using createWorker_v3_bound[of s] by (simp add: bounded_def)

lemma release_bounded: "bounded n s \<Longrightarrow> bounded n (release w s)"
  by (simp add: bounded_def release_def)

lemma count_down_bounded: "bounded n s \<Longrightarrow> bounded n (count_down s)"
  by (simp add: bounded_def)

lemma set_phase_bounded [simp]: "bounded n (set_phase w p s) = bounded n s"
  by (simp add: bounded_def)

lemma deliver_bounded: "bounded n s \<Longrightarrow> bounded n (deliver e s)"
proof (cases e)
  case (EvFork w)
  assume b: "bounded n s"
  then have "bounded n ((set_phase w Forked s)\<lparr>runningWorkers := runningWorkers s @ [w]\<rparr>)"
    by (simp add: bounded_def)
  with b show ?thesis
    using EvFork by (simp add: deliver_def on_fork_def Let_def createWorker_bounded)
next
  case (EvOnline w)
  assume "bounded n s"
  then show ?thesis using EvOnline by (simp add: deliver_def on_online_def)
next
  case (EvExit w code signal)
  assume "bounded n s"
  then show ?thesis
    using EvExit by (simp add: deliver_def on_exit_def createWorker_bounded release_bounded)
next
  case (EvMessage w c)
  assume "bounded n s"
  then show ?thesis using EvMessage by (simp add: deliver_def messageReader_console)
qed

lemma deliver_v1_bounded: "bounded n s \<Longrightarrow> bounded n (deliver_v1 e s)"
  by (cases e)
     (simp_all add: deliver_v1_def on_fork_v1_def on_online_def on_exit_v1_def
        createWorker_v1_bounded count_down_bounded)

lemma deliver_v3_bounded: "bounded n s \<Longrightarrow> bounded n (deliver_v3 e s)"
  by (cases e)
     (simp_all add: deliver_v3_def on_fork_v3_def on_online_def on_exit_v3_def
        messageReader_console createWorker_v3_bounded count_down_bounded)

lemma run_invariant:
  "(\<And>e s. P s \<Longrightarrow> P (d e s)) \<Longrightarrow> P s \<Longrightarrow> P (run d evs s)"
  unfolding run_def by (induction evs arbitrary: s) simp_all

lemma process_exit_bounded [simp]: "bounded n (process_exit c s) = bounded n s"
  by (simp add: bounded_def)

lemma catch_all_bounded:
  "bounded n (snd r) \<Longrightarrow> bounded n (snd (catch_all r))"
proof -
  have emits: "bounded n (foldl (\<lambda>s l. emit l s) s ls)" if "bounded n s" for s ls
    using that by (induction ls arbitrary: s) simp_all
  assume "bounded n (snd r)"
  then show ?thesis
    using emits[of "snd r"]
    by (auto simp add: catch_all_def split: prod.splits option.splits sum.splits)
qed

lemma setConfig_bounded:
  "0 \<le> WORKER_LIMIT cfg \<Longrightarrow> bounded (WORKER_LIMIT cfg) (setConfig (Some cfg) constructor)"
  "0 \<le> WORKER_LIMIT cfg \<Longrightarrow> bounded (WORKER_LIMIT cfg) (setConfig_v1 (Some cfg) constructor)"
  by (simp_all add: setConfig_def setConfig_v1_def constructor_def bounded_def)

lemma createMasterProcess_bounded:
  assumes "bounded n (setConfig file s)"
  shows "bounded n (snd (createMasterProcess file hook s))"
proof -
  have "bounded n ((setConfig file s)\<lparr>gen_finished := False\<rparr>)"
    using assms by (simp add: bounded_def)
  with assms show ?thesis
    by (simp add: createMasterProcess_def Let_def createWorker_bounded split: option.splits)
qed

lemma createMasterProcess_v1_bounded:
  assumes "bounded n (setConfig_v1 file s)"
  shows "bounded n (snd (createMasterProcess_v1 file hook s))"
  using assms
  by (simp add: createMasterProcess_v1_def Let_def createWorker_v1_bounded split: option.splits)

lemma startJob_bounded: "bounded n s \<Longrightarrow> bounded n (snd (startJob main s))"
  by (simp add: startJob_def bounded_def split: option.splits)

lemma start_bounded:
  "0 \<le> WORKER_LIMIT cfg \<Longrightarrow> bounded (WORKER_LIMIT cfg) (snd (start True (Some cfg) hook main))"
  unfolding start_def
  by (rule catch_all_bounded) (simp add: createMasterProcess_bounded setConfig_bounded)

lemma start_v1_bounded:
  "0 \<le> WORKER_LIMIT cfg \<Longrightarrow> bounded (WORKER_LIMIT cfg) (snd (start_v1 True (Some cfg) hook main))"
  unfolding start_v1_def
  by (rule catch_all_bounded) (simp add: createMasterProcess_v1_bounded setConfig_bounded)

lemma constructor_v3_bounded:
  "0 \<le> workerLimit c \<Longrightarrow> bounded (snd (cpusChecker cpus c)) (constructor_v3 cpus c)"
  by (simp add: constructor_v3_def setDefaultConfiguration_def cpusChecker_def constructor_def
      bounded_def emit_def)

lemma start_v3_bounded:
  "0 \<le> workerLimit c \<Longrightarrow> bounded (snd (cpusChecker cpus c)) (snd (start_v3 True cpus c hook main))"
  unfolding start_v3_def
  by (rule catch_all_bounded)
     (simp add: createMasterProcess_v3_def constructor_v3_bounded createWorker_v3_bounded
        split: option.splits)

text \<open>
  C1. With a worker limit that is not negative, after any sequence of fork, online, exit
  and message signals, in any order and for any worker ids, the count of running
  services is at most the configured limit, in all three variants (the queue-less one
  first clamps the limit to the number of CPUs); and \<open>createWorker\<close> adds a worker only
  from a state whose count is below the limit. The limit is an integer, as
  \<open>WORKER_LIMIT\<close> is. Each handler is one step: the first variant's \<open>createWorker\<close>
  awaits \<open>queueManager\<close>, which has already completed, and resumes before the host
  delivers another signal.
\<close>

theorem running_count_bounded:
  assumes "0 \<le> WORKER_LIMIT cfg" and "0 \<le> workerLimit c"
  shows "runningServicesCount (run deliver evs (snd (start True (Some cfg) hook main)))
           \<le> WORKER_LIMIT cfg
       \<and> runningServicesCount (run deliver_v1 evs (snd (start_v1 True (Some cfg) hook main)))
           \<le> WORKER_LIMIT cfg
       \<and> runningServicesCount (run deliver_v3 evs (snd (start_v3 True cpus c hook main)))
           \<le> workerLimit c
       \<and> (workers (createWorker s) \<noteq> workers s
            \<longrightarrow> runningServicesCount s < workerLimit (configuration s))
       \<and> (workers (createWorker_v1 s) \<noteq> workers s
            \<longrightarrow> runningServicesCount s < workerLimit (configuration s))
       \<and> (workers (createWorker_v3 s) \<noteq> workers s
            \<longrightarrow> runningServicesCount s < workerLimit (configuration s))"
proof -
  have "bounded (WORKER_LIMIT cfg) (run deliver evs (snd (start True (Some cfg) hook main)))"
    by (rule run_invariant[where P = "bounded (WORKER_LIMIT cfg)"])
       (simp_all only: deliver_bounded start_bounded[OF assms(1)])
  moreover
  have "bounded (WORKER_LIMIT cfg) (run deliver_v1 evs (snd (start_v1 True (Some cfg) hook main)))"
    by (rule run_invariant[where P = "bounded (WORKER_LIMIT cfg)"])
       (simp_all only: deliver_v1_bounded start_v1_bounded[OF assms(1)])
  moreover
  have "bounded (snd (cpusChecker cpus c)) (run deliver_v3 evs (snd (start_v3 True cpus c hook main)))"
    by (rule run_invariant[where P = "bounded (snd (cpusChecker cpus c))"])
       (simp_all only: deliver_v3_bounded start_v3_bounded[OF assms(2)])
  moreover have "snd (cpusChecker cpus c) \<le> workerLimit c"
    by (simp add: cpusChecker_def)
  moreover have "workers (createWorker_v1 s) \<noteq> workers s
            \<longrightarrow> runningServicesCount s < workerLimit (configuration s)"
    by (simp add: createWorker_v1_def)
  moreover have "workers (createWorker_v3 s) \<noteq> workers s
            \<longrightarrow> runningServicesCount s < workerLimit (configuration s)"
    by (simp add: createWorker_v3_def)
  ultimately show ?thesis
    using createWorker_forks_below_limit[of s] by (simp add: bounded_def)
qed

theorem running_count_bounded_witness:
  "0 \<le> WORKER_LIMIT scenario \<and> 0 \<le> workerLimit example_config
   \<and> runningServicesCount (run deliver scenario_signals (snd (start True (Some scenario) None None)))
        \<le> 2
   \<and> runningServicesCount (run deliver_v1 scenario_signals (snd (start_v1 True (Some scenario) None None)))
        \<le> 2
   \<and> runningServicesCount (run deliver_v3 scenario_signals (snd (start_v3 True 4 example_config None None)))
        \<le> 1"
  using running_count_bounded [of scenario example_config scenario_signals None None 4 constructor]
  by (simp add: scenario_def example_config_def)

section \<open>Draining the queue\<close>

lemma phase_of_SomeD:
  "phase_of w s = Some p \<Longrightarrow> 0 < w \<and> w \<le> length (workers s) \<and> phase (workers s ! (w - 1)) = p"
  by (simp add: phase_of_def split: if_splits)

lemma set_phase_workers:
  "phase_of w s = Some p \<Longrightarrow>
   workers (set_phase w q s) = (workers s)[w - 1 := (workers s ! (w - 1))\<lparr>phase := q\<rparr>]"
  by (simp add: set_phase_def phase_of_def split: if_splits)

lemma set_phase_live:
  assumes "phase_of w s = Some p" and "q \<noteq> Exited"
  shows "\<exists>x \<in> set (workers (set_phase w q s)). phase x \<noteq> Exited"
proof -
  from phase_of_SomeD[OF assms(1)] have i: "w - 1 < length (workers s)" by auto
  have "(workers s)[w - 1 := (workers s ! (w - 1))\<lparr>phase := q\<rparr>] ! (w - 1)
          \<in> set ((workers s)[w - 1 := (workers s ! (w - 1))\<lparr>phase := q\<rparr>])"
    using i by (intro nth_mem) simp
  then show ?thesis
    using i assms(2) by (auto simp add: set_phase_workers[OF assms(1)] intro!: bexI)
qed

lemma pending_alt: "pending s = 4 * length (queue s) + signals_left s"
  by (simp add: pending_def signals_left_def)

lemma sum_list_map_update:
  fixes f :: "'a \<Rightarrow> nat"
  shows "i < length xs \<Longrightarrow> sum_list (map f (xs[i := y])) + f (xs ! i) = sum_list (map f xs) + f y"
proof (induction xs arbitrary: i)
  case Nil
  then show ?case by simp
next
  case (Cons x xs)
  then show ?case by (cases i) auto
qed

lemma set_phase_signals:
  assumes "phase_of w s = Some p"
  shows "signals_left (set_phase w q s) + remaining p = signals_left s + remaining q"
proof -
  from phase_of_SomeD[OF assms] have i: "w - 1 < length (workers s)"
    and p: "phase (workers s ! (w - 1)) = p" by auto
  show ?thesis
    using sum_list_map_update[OF i, of "\<lambda>x. remaining (phase x)" "(workers s ! (w - 1))\<lparr>phase := q\<rparr>"] p
    by (simp add: signals_left_def set_phase_workers[OF assms])
qed


lemma createWorker_pending:
  "\<not> loop (configuration s) \<Longrightarrow> pending (createWorker s) \<le> pending s"
proof (cases s rule: createWorker_cases)
  case spawn
  then obtain k where "length (queue s) = Suc k" by (cases "queue s") auto
  with spawn show "\<not> loop (configuration s) \<Longrightarrow> pending (createWorker s) \<le> pending s"
    by (simp add: pending_def setService_nonempty)
qed (simp_all add: pending_def)

lemma createWorker_queue:
  "\<not> loop (configuration s) \<Longrightarrow> length (queue (createWorker s)) \<le> length (queue s)"
proof (cases s rule: createWorker_cases)
  case spawn
  then show "\<not> loop (configuration s) \<Longrightarrow> length (queue (createWorker s)) \<le> length (queue s)"
    by (simp add: setService_nonempty)
qed simp_all

text \<open>What \<open>createWorker\<close> does to a draining coordinator whether or not it has room for one more worker.\<close>

lemma createWorker_draining:
  assumes "draining N s" and "exit_code s = None"
  shows "draining N (createWorker s)"
proof (cases s rule: createWorker_cases)
  case full
  with assms show ?thesis by (simp add: draining_def)
next
  case drained
  with assms have "queue s = []" by (auto simp add: draining_def)
  with assms drained show ?thesis by (simp add: draining_def)
next
  case spawn
  then obtain k where "length (queue s) = Suc k" by (cases "queue s") auto
  with assms spawn show ?thesis by (simp add: draining_def setService_nonempty)
qed

text \<open>After an exit there is room under the limit, so no worker need be left.\<close>

lemma createWorker_draining_open:
  assumes "\<not> loop (configuration s)" and "runningServicesCount s < workerLimit (configuration s)"
    and "length (workers s) + length (queue s) = N" and "\<not> gen_finished s" and "exit_code s = None"
  shows "draining N (createWorker s)"
proof (cases s rule: createWorker_cases)
  case full
  with assms show ?thesis by simp
next
  case drained
  with assms show ?thesis by (simp add: draining_def)
next
  case spawn
  then obtain k where "length (queue s) = Suc k" by (cases "queue s") auto
  with assms spawn show ?thesis by (simp add: draining_def setService_nonempty)
qed

lemma draining_frame [simp]:
  "draining N (emit l s) = draining N s"
  "draining N (s\<lparr>runningWorkers := ws\<rparr>) = draining N s"
  by (simp_all add: draining_def)

lemma pending_frame [simp]:
  "pending (emit l s) = pending s"
  "pending (s\<lparr>runningWorkers := ws\<rparr>) = pending s"
  "pending (count_down s) = pending s"
  by (simp_all add: pending_def)

lemma release_frame [simp]:
  "runningServicesCount (release w s) = runningServicesCount s - 1"
  "configuration (release w s) = configuration s"
  "queue (release w s) = queue s"
  "runningService (release w s) = runningService s"
  "runningWorkers (release w s) = filter (\<lambda>element. element \<noteq> w) (runningWorkers s)"
  "gen_finished (release w s) = gen_finished s"
  "workers (release w s) = workers s"
  "exit_code (release w s) = exit_code s"
  by (simp_all add: release_def)

lemma pending_release [simp]: "pending (release w s) = pending s"
  by (simp add: pending_def)

lemma set_phase_pending:
  "phase_of w s = Some p \<Longrightarrow> pending (set_phase w q s) + remaining p = pending s + remaining q"
  using set_phase_signals[of w s p q] by (simp add: pending_alt)

lemma set_phase_draining:
  assumes "draining N s" and "phase_of w s = Some p" and "q \<noteq> Exited"
  shows "draining N (set_phase w q s)"
  using assms(1) set_phase_live[OF assms(2,3)] by (simp add: draining_def)

lemma deliver_draining:
  assumes "draining N s" and "enabled s e"
  shows "draining N (deliver e s)"
proof (cases e)
  case (EvFork w)
  with assms(2) have run: "exit_code s = None" and ph: "phase_of w s = Some Created" by simp_all
  have d: "draining N (set_phase w Forked s)"
    using set_phase_draining[OF assms(1) ph] by simp
  show ?thesis
    using EvFork run d
    by (simp add: deliver_def on_fork_def Let_def createWorker_draining)
next
  case (EvOnline w)
  with assms(2) have run: "exit_code s = None" and ph: "phase_of w s = Some Forked" by simp_all
  show ?thesis
    using EvOnline run set_phase_draining[OF assms(1) ph, of Online]
    by (simp add: deliver_def on_online_def)
next
  case (EvExit w code signal)
  with assms(2) have run: "exit_code s = None" by simp
  let ?s = "release w (emit (exit_report w code signal) (set_phase w Exited s))"
  have "draining N (createWorker ?s)"
    using assms(1) run by (intro createWorker_draining_open) (auto simp add: draining_def)
  then show ?thesis
    using EvExit run by (simp add: deliver_def on_exit_def)
next
  case (EvMessage w c)
  then show ?thesis
    using assms(1) by (simp add: deliver_def messageReader_console)
qed

lemma deliver_pending:
  assumes "\<not> loop (configuration s)" and "enabled s e" and "lifecycle e"
  shows "pending (deliver e s) < pending s"
proof (cases e)
  case (EvFork w)
  with assms(2) have run: "exit_code s = None" and ph: "phase_of w s = Some Created" by simp_all
  let ?s = "(set_phase w Forked s)\<lparr>runningWorkers := runningWorkers s @ [w]\<rparr>"
  have "pending (createWorker ?s) \<le> pending ?s"
    using assms(1) by (intro createWorker_pending) simp
  then show ?thesis
    using EvFork run set_phase_pending[OF ph, of Forked]
    by (simp add: deliver_def on_fork_def Let_def)
next
  case (EvOnline w)
  with assms(2) have run: "exit_code s = None" and ph: "phase_of w s = Some Forked" by simp_all
  show ?thesis
    using EvOnline run set_phase_pending[OF ph, of Online]
    by (simp add: deliver_def on_online_def)
next
  case (EvExit w code signal)
  with assms(2) have run: "exit_code s = None"
    and ph: "phase_of w s = Some Forked \<or> phase_of w s = Some Online" by simp_all
  let ?s = "release w (emit (exit_report w code signal) (set_phase w Exited s))"
  have "pending (createWorker ?s) \<le> pending ?s"
    using assms(1) by (intro createWorker_pending) simp
  moreover have "pending (set_phase w Exited s) < pending s"
    using ph set_phase_pending[of w s Forked Exited] set_phase_pending[of w s Online Exited]
    by auto
  ultimately show ?thesis
    using EvExit run by (simp add: deliver_def on_exit_def)
next
  case (EvMessage w c)
  with assms(3) show ?thesis by simp
qed

lemma deliver_pending_le:
  assumes "\<not> loop (configuration s)" and "enabled s e"
  shows "pending (deliver e s) \<le> pending s"
proof (cases "lifecycle e")
  case True
  then show ?thesis using deliver_pending[OF assms] by simp
next
  case False
  then obtain w c where "e = EvMessage w c" by (cases e) simp_all
  then show ?thesis by (simp add: deliver_def messageReader_console)
qed

lemma deliver_queue:
  assumes "\<not> loop (configuration s)"
  shows "length (queue (deliver e s)) \<le> length (queue s)"
proof (cases e)
  case (EvFork w)
  let ?s = "(set_phase w Forked s)\<lparr>runningWorkers := runningWorkers s @ [w]\<rparr>"
  have "length (queue (createWorker ?s)) \<le> length (queue ?s)"
    using assms by (intro createWorker_queue) simp
  then show ?thesis using EvFork by (simp add: deliver_def on_fork_def Let_def)
next
  case (EvOnline w)
  then show ?thesis by (simp add: deliver_def on_online_def)
next
  case (EvExit w code signal)
  let ?s = "release w (emit (exit_report w code signal) (set_phase w Exited s))"
  have "length (queue (createWorker ?s)) \<le> length (queue ?s)"
    using assms by (intro createWorker_queue) simp
  then show ?thesis using EvExit by (simp add: deliver_def on_exit_def)
next
  case (EvMessage w c)
  then show ?thesis by (simp add: deliver_def messageReader_console)
qed

lemma progress:
  assumes "draining N s" and "exit_code s = None"
  shows "\<exists>e. lifecycle e \<and> enabled s e"
proof -
  from assms obtain x where "x \<in> set (workers s)" and live: "phase x \<noteq> Exited"
    by (auto simp add: draining_def)
  then obtain i where i: "i < length (workers s)" and x: "workers s ! i = x"
    by (auto simp add: in_set_conv_nth)
  then have ph: "phase_of (Suc i) s = Some (phase x)"
    by (simp add: phase_of_def)
  show ?thesis
  proof (cases "phase x")
    case Created
    with ph assms(2) have "lifecycle (EvFork (Suc i)) \<and> enabled s (EvFork (Suc i))" by simp
    then show ?thesis by blast
  next
    case Forked
    with ph assms(2) have "lifecycle (EvExit (Suc i) (Some 0) None) \<and> enabled s (EvExit (Suc i) (Some 0) None)"
      by simp
    then show ?thesis by blast
  next
    case Online
    with ph assms(2) have "lifecycle (EvExit (Suc i) (Some 0) None) \<and> enabled s (EvExit (Suc i) (Some 0) None)"
      by simp
    then show ?thesis by blast
  next
    case Exited
    with live show ?thesis by simp
  qed
qed

lemma draining_loop: "draining N s \<Longrightarrow> \<not> loop (configuration s)"
  by (simp add: draining_def)

lemma exec_draining:
  "exec evs s0 = Some s \<Longrightarrow> draining N s0 \<Longrightarrow>
   draining N s \<and> length (filter lifecycle evs) + pending s \<le> pending s0"
proof (induction evs arbitrary: s0)
  case Nil
  then show ?case by simp
next
  case (Cons e es)
  from Cons.prems have en: "enabled s0 e" and rest: "exec es (deliver e s0) = Some s"
    by (simp_all split: if_splits)
  have d: "draining N (deliver e s0)"
    using Cons.prems(2) en by (rule deliver_draining)
  from Cons.IH[OF rest d]
  have ih: "draining N s" "length (filter lifecycle es) + pending s \<le> pending (deliver e s0)"
    by simp_all
  have "lifecycle e \<Longrightarrow> pending (deliver e s0) < pending s0"
    using deliver_pending[OF draining_loop[OF Cons.prems(2)] en] .
  moreover have "pending (deliver e s0) \<le> pending s0"
    using deliver_pending_le[OF draining_loop[OF Cons.prems(2)] en] .
  ultimately show ?case using ih by auto
qed

text \<open>From every draining state the signals still due lead to the exit.\<close>

lemma reaches_exit:
  "draining N s \<Longrightarrow> \<exists>es s'. exec es s = Some s' \<and> exit_code s' = Some 0"
proof (induction "pending s" arbitrary: s rule: less_induct)
  case less
  show ?case
  proof (cases "exit_code s")
    case (Some c)
    with less.prems have "exec [] s = Some s \<and> exit_code s = Some 0"
      by (simp add: draining_def)
    then show ?thesis by blast
  next
    case None
    from progress[OF less.prems None] obtain e where e: "lifecycle e" "enabled s e" by blast
    have "pending (deliver e s) < pending s"
      using deliver_pending[OF draining_loop[OF less.prems] e(2,1)] .
    moreover have "draining N (deliver e s)"
      using less.prems e(2) by (rule deliver_draining)
    ultimately obtain es s' where "exec es (deliver e s) = Some s'" "exit_code s' = Some 0"
      using less.hyps by blast
    with e(2) have "exec (e # es) s = Some s' \<and> exit_code s' = Some 0" by simp
    then show ?thesis by blast
  qed
qed

lemma catch_all_returns: "catch_all (None, s) = (None, s)"
  by (simp add: catch_all_def)

lemma start_master:
  "start True (Some cfg) None main =
     (None, createWorker (emit (Info, EnvInfo) (emit (Info, MasterRunning)
        ((setConfig (Some cfg) constructor)\<lparr>gen_finished := False\<rparr>))))"
  by (simp add: start_def createMasterProcess_def setConfig_def constructor_def Let_def
      catch_all_returns)

lemma start_draining:
  assumes "\<not> LOOP cfg" and "0 < WORKER_LIMIT cfg"
  shows "draining (length (QUEUE cfg)) (snd (start True (Some cfg) None main))"
  unfolding start_master snd_conv
  using assms
  by (intro createWorker_draining_open) (simp_all add: setConfig_def constructor_def)

lemma start_pending:
  assumes "\<not> LOOP cfg"
  shows "pending (snd (start True (Some cfg) None main)) \<le> 4 * length (QUEUE cfg)"
proof -
  let ?s = "emit (Info, EnvInfo) (emit (Info, MasterRunning)
        ((setConfig (Some cfg) constructor)\<lparr>gen_finished := False\<rparr>))"
  have "pending (createWorker ?s) \<le> pending ?s"
    using assms by (intro createWorker_pending) (simp add: setConfig_def)
  also have "pending ?s = 4 * length (QUEUE cfg)"
    by (simp add: pending_def setConfig_def constructor_def)
  finally show ?thesis by (simp add: start_master)
qed

text \<open>
  C2. Without \<open>loop\<close>, with a positive limit and a pre-start hook that completes, take
  any state the coordinator reaches from \<open>start\<close> through signals the host can deliver
  (whatever the exit codes). Then every job of the initial queue is either still queued
  or was dequeued for exactly one forked worker; no signal lengthens the queue; if the
  process has exited, it did so with status 0, on an empty queue, having forked as many
  workers as the queue had jobs; if it has not, some lifecycle signal is due; every
  lifecycle signal lowers \<open>pending\<close>, so that at most four per job are ever delivered;
  and the signals still due lead to the exit.
\<close>

theorem drains_after_all_jobs:
  assumes "\<not> LOOP cfg" and "0 < WORKER_LIMIT cfg"
    and "exec evs (snd (start True (Some cfg) None main)) = Some s"
  shows "length (workers s) + length (queue s) = length (QUEUE cfg)
       \<and> (\<forall>e. length (queue (deliver e s)) \<le> length (queue s))
       \<and> (exit_code s \<noteq> None \<longrightarrow>
            exit_code s = Some 0 \<and> queue s = [] \<and> length (workers s) = length (QUEUE cfg))
       \<and> (exit_code s = None \<longrightarrow> (\<exists>e. lifecycle e \<and> enabled s e))
       \<and> (\<forall>e. lifecycle e \<and> enabled s e \<longrightarrow> pending (deliver e s) < pending s)
       \<and> length (filter lifecycle evs) + pending s \<le> 4 * length (QUEUE cfg)
       \<and> (\<exists>es s'. exec es s = Some s' \<and> exit_code s' = Some 0)"
proof -
  let ?N = "length (QUEUE cfg)"
  from exec_draining[OF assms(3) start_draining[OF assms(1,2)]]
  have d: "draining ?N s"
    and n: "length (filter lifecycle evs) + pending s \<le> pending (snd (start True (Some cfg) None main))"
    by simp_all
  have l: "\<not> loop (configuration s)" using d by (rule draining_loop)
  have 1: "length (workers s) + length (queue s) = ?N" using d by (simp add: draining_def)
  have 2: "\<forall>e. length (queue (deliver e s)) \<le> length (queue s)"
    using deliver_queue[OF l] by blast
  have 3: "exit_code s \<noteq> None \<longrightarrow>
            exit_code s = Some 0 \<and> queue s = [] \<and> length (workers s) = ?N"
    using d by (auto simp add: draining_def)
  have 4: "exit_code s = None \<longrightarrow> (\<exists>e. lifecycle e \<and> enabled s e)"
    using progress[OF d] by blast
  have 5: "\<forall>e. lifecycle e \<and> enabled s e \<longrightarrow> pending (deliver e s) < pending s"
    using deliver_pending[OF l] by blast
  have 6: "length (filter lifecycle evs) + pending s \<le> 4 * ?N"
    using n start_pending[OF assms(1), of main] by simp
  have 7: "\<exists>es s'. exec es s = Some s' \<and> exit_code s' = Some 0"
    using reaches_exit[OF d] .
  from 1 2 3 4 5 6 7 show ?thesis by blast
qed

lemmas eval_defs =
  start_def createMasterProcess_def setConfig_def constructor_def catch_all_def
  createWorker_def gen_next_def setService_def pop_def set_scraper_def emit_def process_exit_def
  cluster_fork_def count_up_def count_down_def full_queue_def
  deliver_def on_fork_def on_online_def on_exit_def release_def exit_report_def
  set_phase_def phase_of_def messageReader_def truthy_def Let_def

lemma scenario_run:
  "\<exists>s. exec scenario_signals (snd (start True (Some scenario) None None)) = Some s
     \<and> exit_code s = Some 0 \<and> length (workers s) = 3"
  by (simp add: scenario_def scenario_signals_def eval_defs)

theorem drains_after_all_jobs_witness:
  "\<not> LOOP scenario \<and> 0 < WORKER_LIMIT scenario
   \<and> (\<exists>s. exec scenario_signals (snd (start True (Some scenario) None None)) = Some s
         \<and> exit_code s = Some 0 \<and> queue s = [] \<and> length (workers s) = 3)"
proof -
  have h: "\<not> LOOP scenario" "0 < WORKER_LIMIT scenario" by (simp_all add: scenario_def)
  from scenario_run obtain s
    where s: "exec scenario_signals (snd (start True (Some scenario) None None)) = Some s"
      and x: "exit_code s = Some 0" by blast
  from drains_after_all_jobs[OF h s] x
  have "queue s = [] \<and> length (workers s) = 3" by (simp add: scenario_def)
  with h s x show ?thesis by blast
qed

section \<open>Worker exit\<close>

lemma createWorker_runningWorkers [simp]:
  "runningWorkers (createWorker s) = runningWorkers s"
  by (cases s rule: createWorker_cases) (simp_all add: setService_frame)

lemma createWorker_after_exit:
  assumes "exit_code s = None" and "runningServicesCount s - 1 < workerLimit (configuration s)"
    and "queue s \<noteq> []" and "\<not> gen_finished s"
  shows "workers (createWorker (release w (emit l (set_phase w Exited s)))) =
           workers (set_phase w Exited s)
             @ [\<lparr>wenv = (env (configuration s))(''SCRAPER'' := last (queue s)), phase = Created\<rparr>]"
    and "runningServicesCount (createWorker (release w (emit l (set_phase w Exited s)))) =
           runningServicesCount s"
    and "exit_code (createWorker (release w (emit l (set_phase w Exited s)))) = None"
    and "queue (createWorker (release w (emit l (set_phase w Exited s)))) =
           (if loop (configuration s) then last (queue s) # butlast (queue s)
            else butlast (queue s))"
  using assms by (simp_all add: createWorker_spawn setService_nonempty)

lemma createWorker_after_exit_drained:
  assumes "exit_code s = None" and "runningServicesCount s - 1 < workerLimit (configuration s)"
    and "queue s = [] \<or> gen_finished s"
  shows "exit_code (createWorker (release w (emit l (set_phase w Exited s)))) = Some 0"
    and "workers (createWorker (release w (emit l (set_phase w Exited s)))) =
           workers (set_phase w Exited s)"
  using assms by (auto simp add: createWorker_drained)

lemma release_console:
  "exit_code s = None \<Longrightarrow>
   console (release w (emit l (set_phase w Exited s))) =
     console s @ [l, (Standard, QueueLengthInExit (length (queue s)))]"
  by (simp add: release_def emit_def)

lemma createWorker_console_spawn:
  "exit_code s = None \<Longrightarrow> runningServicesCount s < workerLimit (configuration s) \<Longrightarrow>
   \<not> gen_finished s \<Longrightarrow> queue s \<noteq> [] \<Longrightarrow>
   console (createWorker s) = console s @ [(Console, Number (length (runningWorkers s)))]"
  by (simp add: createWorker_spawn setService_frame emit_def)

lemma createWorker_console_drained:
  "exit_code s = None \<Longrightarrow> runningServicesCount s < workerLimit (configuration s) \<Longrightarrow>
   gen_finished s \<or> queue s = [] \<Longrightarrow>
   console (createWorker s) =
     console s @ [(Console, Number (length (runningWorkers s))), (Info, FinishedWork)]"
  by (simp add: createWorker_drained emit_def)

lemma exit_report_classes:
  "exit_report w code signal =
     (if code = Some 0 then (Process, DoneJob w) else (Warning, Crashed w code signal))"
  by (simp add: exit_report_def)

text \<open>
  C5. An exit signal, whatever its code and signal, handled by a running coordinator
  whose count is within the limit. The first line the handler prints classifies the
  exit: the line of a finished job when the code is 0, the crash warning with the code
  and the signal otherwise (a worker killed by a signal has no code). The worker's id is
  removed from the running workers, \<open>release\<close> lowers the count by one, and
  \<open>createWorker\<close> is called in the same step with room under the limit. While the
  generator has a job to hand out, one more worker is forked for the job at the tail
  of the queue and the count is back where it was; otherwise the process exits with
  status 0. The first variant, which keeps no running set, prints the same
  classification and always forks the replacement.
\<close>

theorem exit_releases_and_respawns:
  assumes "exit_code s = None" and "runningServicesCount s \<le> workerLimit (configuration s)"
  shows "runningWorkers (deliver (EvExit w code signal) s) =
           filter (\<lambda>element. element \<noteq> w) (runningWorkers s)
       \<and> runningServicesCount (release w s) = runningServicesCount s - 1
       \<and> (queue s \<noteq> [] \<and> \<not> gen_finished s \<longrightarrow>
            length (workers (deliver (EvExit w code signal) s)) = Suc (length (workers s))
            \<and> wenv (last (workers (deliver (EvExit w code signal) s))) ''SCRAPER'' = last (queue s)
            \<and> phase (last (workers (deliver (EvExit w code signal) s))) = Created
            \<and> runningServicesCount (deliver (EvExit w code signal) s) = runningServicesCount s
            \<and> exit_code (deliver (EvExit w code signal) s) = None
            \<and> console (deliver (EvExit w code signal) s) =
                console s @
                  [if code = Some 0 then (Process, DoneJob w) else (Warning, Crashed w code signal),
                   (Standard, QueueLengthInExit (length (queue s))),
                   (Console, Number (length (filter (\<lambda>element. element \<noteq> w) (runningWorkers s))))])
       \<and> (queue s = [] \<or> gen_finished s \<longrightarrow>
            exit_code (deliver (EvExit w code signal) s) = Some 0
            \<and> length (workers (deliver (EvExit w code signal) s)) = length (workers s)
            \<and> console (deliver (EvExit w code signal) s) =
                console s @
                  [if code = Some 0 then (Process, DoneJob w) else (Warning, Crashed w code signal),
                   (Standard, QueueLengthInExit (length (queue s))),
                   (Console, Number (length (filter (\<lambda>element. element \<noteq> w) (runningWorkers s)))),
                   (Info, FinishedWork)])
       \<and> length (workers (deliver_v1 (EvExit w code signal) s)) = Suc (length (workers s))
       \<and> runningServicesCount (deliver_v1 (EvExit w code signal) s) = runningServicesCount s
       \<and> console (deliver_v1 (EvExit w code signal) s) =
           console s @
             [if code = Some 0 then (Process, DoneJob w) else (Warning, Crashed w code signal)]"
proof -
  let ?l = "exit_report w code signal"
  let ?r = "release w (emit ?l (set_phase w Exited s))"
  have room: "runningServicesCount s - 1 < workerLimit (configuration s)"
    using assms(2) by simp
  have d: "deliver (EvExit w code signal) s = createWorker ?r"
    using assms(1) by (simp add: deliver_def on_exit_def)
  have r: "exit_code ?r = None" "runningServicesCount ?r < workerLimit (configuration ?r)"
    "queue ?r = queue s" "gen_finished ?r = gen_finished s"
    "runningWorkers ?r = filter (\<lambda>element. element \<noteq> w) (runningWorkers s)"
    using assms(1) room by simp_all
  have c: "console ?r =
      console s @ [if code = Some 0 then (Process, DoneJob w) else (Warning, Crashed w code signal),
                   (Standard, QueueLengthInExit (length (queue s)))]"
    using release_console[OF assms(1), of w ?l] by (simp only: exit_report_classes)
  have 1: "runningWorkers (deliver (EvExit w code signal) s) =
             filter (\<lambda>element. element \<noteq> w) (runningWorkers s)"
    by (simp add: d)
  have 2: "runningServicesCount (release w s) = runningServicesCount s - 1" by simp
  have 3: "queue s \<noteq> [] \<and> \<not> gen_finished s \<longrightarrow>
            length (workers (deliver (EvExit w code signal) s)) = Suc (length (workers s))
            \<and> wenv (last (workers (deliver (EvExit w code signal) s))) ''SCRAPER'' = last (queue s)
            \<and> phase (last (workers (deliver (EvExit w code signal) s))) = Created
            \<and> runningServicesCount (deliver (EvExit w code signal) s) = runningServicesCount s
            \<and> exit_code (deliver (EvExit w code signal) s) = None"
    using createWorker_after_exit[OF assms(1) room, of w ?l] by (simp add: d)
  have c3: "queue s \<noteq> [] \<and> \<not> gen_finished s \<longrightarrow>
            console (deliver (EvExit w code signal) s) =
                console s @
                  [if code = Some 0 then (Process, DoneJob w) else (Warning, Crashed w code signal),
                   (Standard, QueueLengthInExit (length (queue s))),
                   (Console, Number (length (filter (\<lambda>element. element \<noteq> w) (runningWorkers s))))]"
    using createWorker_console_spawn[OF r(1,2)] by (simp add: d r(3,4,5) c)
  have 4: "queue s = [] \<or> gen_finished s \<longrightarrow>
            exit_code (deliver (EvExit w code signal) s) = Some 0
            \<and> length (workers (deliver (EvExit w code signal) s)) = length (workers s)"
    using createWorker_after_exit_drained[OF assms(1) room, of w ?l] by (simp add: d)
  have c4: "queue s = [] \<or> gen_finished s \<longrightarrow>
            console (deliver (EvExit w code signal) s) =
                console s @
                  [if code = Some 0 then (Process, DoneJob w) else (Warning, Crashed w code signal),
                   (Standard, QueueLengthInExit (length (queue s))),
                   (Console, Number (length (filter (\<lambda>element. element \<noteq> w) (runningWorkers s)))),
                   (Info, FinishedWork)]"
    using createWorker_console_drained[OF r(1,2)] by (auto simp add: d r(3,4,5) c)
  have 5: "length (workers (deliver_v1 (EvExit w code signal) s)) = Suc (length (workers s))
       \<and> runningServicesCount (deliver_v1 (EvExit w code signal) s) = runningServicesCount s"
    using assms by (simp add: deliver_v1_def on_exit_v1_def createWorker_v1_def
        queueManager_v1_def split_beta)
  have 6: "console (deliver_v1 (EvExit w code signal) s) =
           console s @
             [if code = Some 0 then (Process, DoneJob w) else (Warning, Crashed w code signal)]"
    using assms by (simp add: deliver_v1_def on_exit_v1_def createWorker_v1_def
        queueManager_v1_def set_scraper_def split_beta emit_def exit_report_classes)
  from 1 2 3 c3 4 c4 5 6 show ?thesis by blast
qed

lemma scenario_started:
  "exit_code (snd (start True (Some scenario) None None)) = None"
  "runningServicesCount (snd (start True (Some scenario) None None)) = 1"
  "workerLimit (configuration (snd (start True (Some scenario) None None))) = 2"
  "queue (snd (start True (Some scenario) None None)) = [Some ''j1'', Some ''j2'']"
  "\<not> gen_finished (snd (start True (Some scenario) None None))"
  "length (workers (snd (start True (Some scenario) None None))) = 1"
  "runningWorkers (snd (start True (Some scenario) None None)) = []"
  by (simp_all add: scenario_def eval_defs)

theorem exit_releases_and_respawns_witness:
  "exit_code (snd (start True (Some scenario) None None)) = None
   \<and> runningServicesCount (snd (start True (Some scenario) None None))
        \<le> workerLimit (configuration (snd (start True (Some scenario) None None)))
   \<and> length (workers (deliver (EvExit 1 (Some 1) None) (snd (start True (Some scenario) None None))))
        = 2
   \<and> wenv (last (workers (deliver (EvExit 1 (Some 1) None)
          (snd (start True (Some scenario) None None))))) ''SCRAPER'' = Some ''j2''
   \<and> console (deliver (EvExit 1 (Some 1) None) (snd (start True (Some scenario) None None))) =
       console (snd (start True (Some scenario) None None)) @
         [(Warning, Crashed 1 (Some 1) None), (Standard, QueueLengthInExit 2), (Console, Number 0)]"
  using exit_releases_and_respawns [of "snd (start True (Some scenario) None None)" 1 "Some 1" None]
  by (simp add: scenario_started)

section \<open>Empty queue, control messages, error classifier\<close>

lemma gen_next_empty:
  "queue s = [] \<Longrightarrow>
   fst (gen_next s) \<and> queue (snd (gen_next s)) = [] \<and> runningService (snd (gen_next s)) = runningService s
   \<and> configuration (snd (gen_next s)) = configuration s \<and> workers (snd (gen_next s)) = workers s"
  by (simp add: gen_next_def)

lemma createWorker_no_job:
  "queue s = [] \<Longrightarrow> workers (createWorker s) = workers s"
  by (cases s rule: createWorker_cases) simp_all

lemma catch_all_workers [simp]: "workers (snd (catch_all r)) = workers (snd r)"
proof -
  have "workers (foldl (\<lambda>s l. emit l s) s ls) = workers s" for s ls
    by (induction ls arbitrary: s) simp_all
  then show ?thesis
    by (simp add: catch_all_def split: prod.splits option.splits sum.splits)
qed

text \<open>
  C6. With an empty \<open>QUEUE\<close>, whatever \<open>LOOP\<close> says, \<open>start\<close> forks no worker.
  \<open>this._gen.next()\<close> on an empty queue reports done and leaves the queue, the running
  service and the configuration as they were. The coordinator makes that first attempt
  when the count is below the limit, that is with a positive limit, and then exits at once with
  status 0, having printed only the start-up lines and the notice of the empty queue.
\<close>

theorem empty_queue_terminates:
  assumes "QUEUE cfg = []"
  shows "workers (snd (start True (Some cfg) beforeStart main)) = []
       \<and> (queue s = [] \<longrightarrow>
            fst (gen_next s) \<and> queue (snd (gen_next s)) = []
            \<and> runningService (snd (gen_next s)) = runningService s
            \<and> configuration (snd (gen_next s)) = configuration s)
       \<and> (0 < WORKER_LIMIT cfg \<longrightarrow>
            fst (start True (Some cfg) None main) = None
            \<and> exit_code (snd (start True (Some cfg) None main)) = Some 0
            \<and> console (snd (start True (Some cfg) None main)) =
                [(Info, MasterRunning), (Info, EnvInfo), (Console, Number 0), (Info, FinishedWork)])"
proof -
  have 1: "workers (snd (start True (Some cfg) beforeStart main)) = []"
    using assms
    by (simp add: start_def createMasterProcess_def Let_def setConfig_def constructor_def
        createWorker_no_job split: option.splits)
  have 2: "queue s = [] \<longrightarrow>
            fst (gen_next s) \<and> queue (snd (gen_next s)) = []
            \<and> runningService (snd (gen_next s)) = runningService s
            \<and> configuration (snd (gen_next s)) = configuration s"
    using gen_next_empty[of s] by simp
  have 3: "0 < WORKER_LIMIT cfg \<longrightarrow>
            fst (start True (Some cfg) None main) = None
            \<and> exit_code (snd (start True (Some cfg) None main)) = Some 0
            \<and> console (snd (start True (Some cfg) None main)) =
                [(Info, MasterRunning), (Info, EnvInfo), (Console, Number 0), (Info, FinishedWork)]"
    using assms
    by (simp add: start_master createWorker_drained setConfig_def constructor_def emit_def)
  from 1 2 3 show ?thesis by blast
qed

theorem empty_queue_terminates_witness:
  "QUEUE no_jobs = [] \<and> 0 < WORKER_LIMIT no_jobs
   \<and> workers (snd (start True (Some no_jobs) None None)) = []
   \<and> exit_code (snd (start True (Some no_jobs) None None)) = Some 0
   \<and> fst (gen_next constructor)"
  using empty_queue_terminates [of no_jobs None None constructor]
  by (simp add: no_jobs_def scenario_def constructor_def)

text \<open>
  The first variant has no \<open>loop\<close> flag and always re-inserts what it popped. From an
  empty queue it pops \<open>undefined\<close>, queues it, and forks a worker for it.
\<close>

lemma queueManager_v1_empty:
  "queue s = [] \<Longrightarrow>
   queue (queueManager_v1 s) = [None]
   \<and> env (configuration (queueManager_v1 s)) ''SCRAPER'' = None
   \<and> (runningServicesCount s < workerLimit (configuration s)
        \<longrightarrow> length (workers (createWorker_v1 s)) = Suc (length (workers s)))"
  by (simp add: queueManager_v1_def createWorker_v1_def pop_def set_scraper_def)

text \<open>
  C9, as stated, fails: a message that is present but empty is not printed.
\<close>

theorem message_printed_counterexample:
  "message \<lparr>actions = Some check_queue, message = Some []\<rparr> \<noteq> None
   \<and> console (messageReader \<lparr>actions = Some check_queue, message = Some []\<rparr> constructor) = []"
  by (simp add: messageReader_def truthy_def constructor_def)

text \<open>
  C9, amended. The listener prints the message when it is present and not the empty
  string, and nothing otherwise; the action makes no difference; and the queue, the
  running count, the running workers and the configuration are as before: only the
  console changes.
\<close>

theorem messageReader_frame:
  "console (deliver (EvMessage w c) s) =
     (if exit_code s = None \<and> message c \<noteq> None \<and> message c \<noteq> Some []
      then console s @ [(Console, Literal (the (message c)))] else console s)
   \<and> queue (deliver (EvMessage w c) s) = queue s
   \<and> runningServicesCount (deliver (EvMessage w c) s) = runningServicesCount s
   \<and> runningWorkers (deliver (EvMessage w c) s) = runningWorkers s
   \<and> configuration (deliver (EvMessage w c) s) = configuration s
   \<and> deliver (EvMessage w (c\<lparr>actions := a\<rparr>)) s = deliver (EvMessage w c) s
   \<and> deliver (EvMessage w c) s = s\<lparr>console := console (deliver (EvMessage w c) s)\<rparr>"
  by (cases "message c")
     (simp_all add: deliver_def messageReader_console truthy_def emit_def)

text \<open>
  C10. \<open>typeof null\<close> is \<open>'object'\<close>, so \<open>errorHandler\<close> enumerates the entries of
  \<open>null\<close>, which throws: it returns no log lines at all.
\<close>

theorem errorHandler_null_throws:
  "typeof JNull = T_object
   \<and> errorHandler JNull = Inl (TypeError ''Cannot convert undefined or null to object'')
   \<and> (\<forall>ls. errorHandler JNull \<noteq> Inr ls)"
  by (simp add: typeof_def errorHandler_def)

text \<open>
  On every other value the classifier returns its lines, and \<open>start\<close> exits with
  status 1 after them; a configuration that cannot be loaded ends the process with
  status 0 and one error line, before anything else runs.
\<close>

lemma errorHandler_classes:
  "errorHandler (JObject kvs) = Inr (map (\<lambda>(key, val). (Error, Literal (key @ '': '' @ val))) kvs)"
  "errorHandler JUndefined = Inr [(Error, Literal ''Catch undefined error.'')]"
  "errorHandler (JPrimitive t) = Inr [(Error, Literal (''Worker failed with reason: '' @ t))]"
  by (simp_all add: errorHandler_def typeof_def toString_def)

lemma emits_exit_code [simp]: "exit_code (foldl (\<lambda>s l. emit l s) s ls) = exit_code s"
  by (induction ls arbitrary: s) simp_all

lemma start_classified_exit:
  "errorHandler error = Inr ls \<Longrightarrow>
   exit_code (snd (start True (Some cfg) (Some error) main)) = Some 1
   \<and> exit_code (snd (start False file beforeStart (Some error))) = Some 1"
  by (simp add: start_def createMasterProcess_def setConfig_def startJob_def catch_all_def
      constructor_def Let_def)


text \<open>
  C7. When the pre-start hook throws \<open>null\<close>, the classifier logs nothing: its own exception
  leaves \<open>start\<close>.
\<close>

theorem start_null_not_classified:
  "fst (start True (Some scenario) (Some JNull) None)
     = Some (TypeError ''Cannot convert undefined or null to object'')
   \<and> console (snd (start True (Some scenario) (Some JNull) None)) = []
   \<and> workers (snd (start True (Some scenario) (Some JNull) None)) = []"
  by (simp add: start_def createMasterProcess_def setConfig_def catch_all_def errorHandler_def
      typeof_def constructor_def Let_def)

text \<open>
  When the pre-start hook or the job body throws \<open>null\<close>, \<open>process.exit(1)\<close> is not
  reached, in the master and in a worker alike: the status is then the runtime's.
\<close>

lemma start_null_skips_exit:
  "exit_code (snd (start True (Some scenario) (Some JNull) None)) = None
   \<and> exit_code (snd (start False None None (Some JNull))) = None
   \<and> exit_code (snd (start_v1 True (Some scenario) (Some JNull) None)) = None"
  by (simp add: start_def start_v1_def createMasterProcess_def createMasterProcess_v1_def
      setConfig_def setConfig_v1_def startJob_def catch_all_def errorHandler_def
      typeof_def constructor_def Let_def)


lemma constructor_v3_running [simp]: "exit_code (constructor_v3 cpus c) = None"
  by (simp add: constructor_v3_def setDefaultConfiguration_def constructor_def split_beta Let_def)




end
